theory Spec2Isabelle
  imports Main
begin

section \<open>The filter h3ToGeoBoundary (src/apps/filters/h3ToGeoBoundary.c)\<close>

text \<open>
  The program reads cell indexes from standard input, one \<^verbatim>\<open>fgets\<close> call per
  record, and writes each cell's boundary either as plain text or as KML. The model below
  follows \<^verbatim>\<open>doCell\<close> and \<^verbatim>\<open>main\<close> statement by statement. What the
  program does is recorded as the sequence of calls it makes to the library (decoder, KML
  writer, printing routines), in program order, together with the exit status.
\<close>

subsection \<open>Characters and C strings\<close>

abbreviation newline :: char where
  "newline \<equiv> CHR 0x0A"

abbreviation NUL :: char where
  "NUL \<equiv> CHR 0x00"

text \<open>
  A \<^verbatim>\<open>char *\<close> handed to a function is read up to its first NUL byte. Command
  line arguments never contain one; bytes read from standard input may.
\<close>

definition c_str :: "string \<Rightarrow> string" where
  "c_str buf = takeWhile (\<lambda>c. c \<noteq> NUL) buf"

text \<open>\<^verbatim>\<open>isspace\<close> and \<^verbatim>\<open>isdigit\<close> in the C locale.\<close>

definition isspace :: "char \<Rightarrow> bool" where
  "isspace c = (c \<in> set [CHR 0x20, CHR 0x09, CHR 0x0A, CHR 0x0B, CHR 0x0C, CHR 0x0D])"

definition isdigit :: "char \<Rightarrow> bool" where
  "isdigit c = (c \<in> set ''0123456789'')"

definition digit_value :: "char \<Rightarrow> int" where
  "digit_value c = int (of_char c) - 48"

definition decimal :: "string \<Rightarrow> int" where
  "decimal ds = foldl (\<lambda>a c. 10 * a + digit_value c) 0 ds"

subsection \<open>The library function sscanf with the format "%d"\<close>

text \<open>
  \<^verbatim>\<open>sscanf(s, "%d", &x)\<close> skips white space, then reads an optional sign and the
  longest run of decimal digits. It returns \<^verbatim>\<open>EOF\<close> (an input failure) when the
  string ends before any character of a number, 0 (a matching failure) when what follows
  is not a number, and 1 after storing the number in \<open>x\<close>; on a failure \<open>x\<close> keeps its
  value. Text after the digits is left unread. A number that does not fit an
  \<^verbatim>\<open>int\<close> (of 32 bits) is undefined behaviour in C: the model returns
  \<open>None\<close> there.
\<close>

datatype scanned = InputFailure | MatchingFailure | Number int

definition scan_int :: "string \<Rightarrow> scanned" where
  "scan_int s =
     (case dropWhile isspace s of
        [] \<Rightarrow> InputFailure
      | c # cs \<Rightarrow>
          (let negative = (c = CHR ''-'');
               rest = (if c = CHR ''-'' \<or> c = CHR ''+'' then cs else c # cs);
               digits = takeWhile isdigit rest
           in if digits = [] then MatchingFailure
              else Number (if negative then - decimal digits else decimal digits)))"

definition INT_MAX :: int where
  "INT_MAX = 2147483647"

definition INT_MIN :: int where
  "INT_MIN = - 2147483648"

definition EOF :: int where
  "EOF = - 1"

definition sscanf_d :: "string \<Rightarrow> int \<Rightarrow> (int \<times> int) option" where
  "sscanf_d s x =
     (case scan_int s of
        InputFailure \<Rightarrow> Some (EOF, x)
      | MatchingFailure \<Rightarrow> Some (0, x)
      | Number v \<Rightarrow> if INT_MIN \<le> v \<and> v \<le> INT_MAX then Some (1, v) else None)"

subsection \<open>Standard input: fgets and feof\<close>

text \<open>
  Standard input delivers the bytes of \<open>pending\<close>; a read that needs a byte beyond them
  meets the stream's \<open>ending\<close>: the end of the file or a read error. \<open>eof\<close> is the
  stream's end-of-file indicator, the value \<^verbatim>\<open>feof\<close> reports.
\<close>

datatype ending = EndOfFile | ReadError

record instream =
  pending :: string
  ending :: ending
  eof :: bool

definition stdin_of :: "string \<Rightarrow> ending \<Rightarrow> instream" where
  "stdin_of bytes e = \<lparr>pending = bytes, ending = e, eof = False\<rparr>"

fun take_line :: "string \<Rightarrow> string" where
  "take_line [] = []"
| "take_line (c # cs) = (if c = newline then [c] else c # take_line cs)"

text \<open>
  \<^verbatim>\<open>fgets(buff, n, stdin)\<close> reads at most \<open>n - 1\<close> bytes and stops after a
  newline, which it keeps. When the stream ends first: at the end of the file it returns
  the bytes read so far, or NULL when there are none, and sets the indicator; on a read
  error it returns NULL. NULL is \<open>None\<close>.
\<close>

definition fgets :: "nat \<Rightarrow> instream \<Rightarrow> string option \<times> instream" where
  "fgets n s =
     (let buff = take_line (take (n - 1) (pending s))
      in if length buff = n - 1 \<or> (buff \<noteq> [] \<and> last buff = newline)
         then (Some buff, s\<lparr>pending := drop (length buff) (pending s)\<rparr>)
         else (case ending s of
                 EndOfFile \<Rightarrow>
                   (if buff = [] then None else Some buff, s\<lparr>pending := [], eof := True\<rparr>)
               | ReadError \<Rightarrow> (None, s\<lparr>pending := []\<rparr>)))"

definition feof :: "instream \<Rightarrow> bool" where
  "feof s = eof s"

subsection \<open>The library the program calls\<close>

text \<open>
  The H3 library itself (\<^verbatim>\<open>h3api.h\<close>, \<^verbatim>\<open>kml.h\<close>, \<^verbatim>\<open>utility.h\<close>) is not
  part of the sources at hand, so the types \<^verbatim>\<open>H3Index\<close> (\<open>'h\<close>) and
  \<^verbatim>\<open>GeoBoundary\<close> (\<open>'b\<close>), the constant \<^verbatim>\<open>BUFF_SIZE\<close> and the three
  conversion functions are parameters of the model.
\<close>

record ('h, 'b) env =
  BUFF_SIZE :: nat
  stringToH3 :: "string \<Rightarrow> 'h"
  h3ToGeoBoundary :: "'h \<Rightarrow> 'b"
  h3ToString :: "'h \<Rightarrow> nat \<Rightarrow> string"

text \<open>The calls the program makes, with their arguments.\<close>

datatype 'b event =
    FprintfStderr string
  | Error string
  | KmlPtsHeader string string
  | StringToH3 string
  | OutputBoundaryKML 'b string
  | Printf string
  | GeoBoundaryPrintln 'b
  | KmlPtsFooter

text \<open>
  A run that ends has made a sequence of calls and has an exit status. \<open>Undefined\<close> is
  a run whose behaviour C leaves undefined.
\<close>

datatype 'b outcome = Exit "'b event list" int | Undefined

text \<open>
  Modelled from the spec: \<^verbatim>\<open>error\<close> is defined in utility.c, which is missing
  from the sources at hand. The spec says of a fatal error that it is reported to the
  error stream and that the process halts immediately with a non-zero exit status. The
  report is the call \<open>Error msg\<close>; the status is 1, the one \<^verbatim>\<open>main\<close> itself uses
  for its usage error, and the theorems below rely only on its being non-zero.
\<close>

definition error :: "string \<Rightarrow> 'b event list \<Rightarrow> 'b outcome" where
  "error msg out = Exit (out @ [Error msg]) 1"

subsection \<open>doCell\<close>

definition doCell :: "('h, 'b) env \<Rightarrow> 'h \<Rightarrow> int \<Rightarrow> 'b event list" where
  "doCell env h isKmlOut =
     (let b = h3ToGeoBoundary env h;
          label = h3ToString env h (BUFF_SIZE env)
      in if isKmlOut \<noteq> 0 then [OutputBoundaryKML b label]
         else [Printf (label @ [newline]), GeoBoundaryPrintln b])"

subsection \<open>main\<close>

text \<open>
  The loop \<^verbatim>\<open>while (1)\<close> of \<^verbatim>\<open>main\<close>, with the calls made so far in
  \<open>out\<close>. A loop that never leaves has the value \<open>None\<close>.
\<close>

partial_function (option) read_loop ::
  "('h, 'b) env \<Rightarrow> int \<Rightarrow> instream \<Rightarrow> 'b event list \<Rightarrow> 'b outcome option" where
  "read_loop env isKmlOut stdin out =
     (case fgets (BUFF_SIZE env) stdin of
        (None, stdin') \<Rightarrow>
          if feof stdin'
          then Some (Exit (out @ (if isKmlOut \<noteq> 0 then [KmlPtsFooter] else [])) 0)
          else Some (error ''reading H3 index from stdin'' out)
      | (Some buff, stdin') \<Rightarrow>
          read_loop env isKmlOut stdin'
            (out @ StringToH3 (c_str buff) # doCell env (stringToH3 env (c_str buff)) isKmlOut))"

text \<open>
  \<^verbatim>\<open>main\<close>: the argument checks, the KML header, the loop, the footer. The
  integer \<^verbatim>\<open>isKmlOut\<close> starts at 0 and is what \<^verbatim>\<open>sscanf\<close> leaves in
  it. Reaching the end of \<^verbatim>\<open>main\<close> is the exit status 0.
\<close>

definition defaultKmlName :: string where
  "defaultKmlName = ''geo from H3''"

definition defaultKmlDesc :: string where
  "defaultKmlDesc = ''from h3ToGeo''"

definition main :: "('h, 'b) env \<Rightarrow> string list \<Rightarrow> instream \<Rightarrow> 'b outcome option" where
  "main env argv stdin =
     (let argc = length argv
      in if argc > 5
         then Some (Exit [FprintfStderr (''usage: '' @ argv ! 0 @
                            '' [outputMode kmlName kmlDesc]'' @ [newline])] 1)
         else if argc > 1
         then (case sscanf_d (argv ! 1) 0 of
                 None \<Rightarrow> Some Undefined
               | Some (ret, isKmlOut) \<Rightarrow>
                   if ret = 0 then Some (error ''outputMode must be an integer'' [])
                   else if isKmlOut \<noteq> 0 \<and> isKmlOut \<noteq> 1
                   then Some (error ''outputMode must be 0 or 1'' [])
                   else (let (kmlName, kmlDesc) =
                               (if argc > 2
                                then (argv ! 2, if argc > 3 then argv ! 3 else defaultKmlDesc)
                                else (defaultKmlName, defaultKmlDesc))
                         in read_loop env isKmlOut stdin [KmlPtsHeader kmlName kmlDesc]))
         else read_loop env 0 stdin [])"

subsection \<open>Notions used to state the properties\<close>

text \<open>
  The buffers that successive calls of \<^verbatim>\<open>fgets\<close> return, up to the first
  NULL: the records a run reads. With a buffer of fewer than two bytes
  \<^verbatim>\<open>fgets\<close> consumes nothing and the sequence has no end; the list is empty
  there.
\<close>

function reads :: "nat \<Rightarrow> instream \<Rightarrow> string list" where
  "reads n s =
     (if n < 2 then []
      else (case fgets n s of
              (None, s') \<Rightarrow> []
            | (Some buff, s') \<Rightarrow> buff # reads n s'))"
  by pat_completeness auto
termination
proof (relation "measure (\<lambda>(n, s). length (pending s))", goal_cases)
  case 1
  show ?case by simp
next
  case (2 n s r s' buff)
  then have n: "2 \<le> n" and f: "fgets n s = (Some buff, s')" by simp_all
  have shorter: "length (take_line xs) \<le> length xs" for xs
    by (induction xs) auto
  have b: "buff = take_line (take (n - 1) (pending s))"
    using f by (auto simp: fgets_def Let_def split: if_splits ending.splits)
  have ne: "buff \<noteq> []"
    using n f by (auto simp: fgets_def Let_def split: if_splits ending.splits)
  have "length buff \<le> length (take (n - 1) (pending s))"
    unfolding b by (rule shorter)
  then have "length buff \<le> length (pending s)" by simp
  with ne have pos: "0 < length (pending s)" "0 < length buff" by auto
  have "pending s' = drop (length buff) (pending s) \<or> pending s' = []"
    using f by (auto simp: fgets_def Let_def split: if_splits ending.splits)
  with pos have "length (pending s') < length (pending s)" by auto
  then show ?case by simp
qed

text \<open>The calls one pass through the loop body makes for the buffer \<open>buff\<close>.\<close>

definition per_record :: "('h, 'b) env \<Rightarrow> int \<Rightarrow> string \<Rightarrow> 'b event list" where
  "per_record env isKmlOut buff =
     StringToH3 (c_str buff) # doCell env (stringToH3 env (c_str buff)) isKmlOut"

text \<open>A text cut into successive pieces of \<open>m\<close> bytes, the last one possibly shorter.\<close>

function fixed_chunks :: "nat \<Rightarrow> string \<Rightarrow> string list" where
  "fixed_chunks m s = (if m = 0 \<or> s = [] then [] else take m s # fixed_chunks m (drop m s))"
  by pat_completeness auto
termination
  by (relation "measure (\<lambda>(m, s). length s)") auto

fun is_header :: "'b event \<Rightarrow> bool" where
  "is_header (KmlPtsHeader name desc) = True"
| "is_header e = False"

fun is_record_output :: "'b event \<Rightarrow> bool" where
  "is_record_output (OutputBoundaryKML b label) = True"
| "is_record_output (Printf text) = True"
| "is_record_output (GeoBoundaryPrintln b) = True"
| "is_record_output e = False"

fun decoded_texts :: "'b event list \<Rightarrow> string list" where
  "decoded_texts [] = []"
| "decoded_texts (StringToH3 text # es) = text # decoded_texts es"
| "decoded_texts (e # es) = decoded_texts es"

text \<open>
  A stand-in for the library, used to run the program on concrete inputs: a cell is the
  leading run of hexadecimal digits of the text, its label is that run, and its boundary
  is a text naming the cell.
\<close>

definition demo_env :: "nat \<Rightarrow> (string, string) env" where
  "demo_env n =
     \<lparr>BUFF_SIZE = n,
      stringToH3 = takeWhile (\<lambda>c. c \<in> set ''0123456789abcdef''),
      h3ToGeoBoundary = (\<lambda>h. ''boundary of '' @ h),
      h3ToString = (\<lambda>h n. h)\<rparr>"

text \<open>The calls of a run that ends; there are none to speak of otherwise.\<close>

fun calls_of :: "'b outcome option \<Rightarrow> 'b event list" where
  "calls_of (Some (Exit calls status)) = calls"
| "calls_of r = []"

section \<open>Properties\<close>

subsection \<open>Reading from standard input\<close>

declare reads.simps [simp del] fixed_chunks.simps [simp del]

lemma stdin_of_simps [simp]:
  "pending (stdin_of p e) = p" "ending (stdin_of p e) = e" "eof (stdin_of p e) = False"
  "(stdin_of q e)\<lparr>pending := p\<rparr> = stdin_of p e"
  by (simp_all add: stdin_of_def)

lemma take_line_no_newline: "newline \<notin> set l \<Longrightarrow> take_line l = l"
  by (induction l) auto

lemma take_line_through_newline:
  "newline \<notin> set l \<Longrightarrow> take_line (l @ newline # rest) = l @ [newline]"
  by (induction l) auto

lemma fgets_line:
  assumes "newline \<notin> set l" "length l + 1 < n"
  shows "fgets n (s\<lparr>pending := l @ newline # rest\<rparr>) =
           (Some (l @ [newline]), s\<lparr>pending := rest\<rparr>)"
proof -
  have "take (n - 1) (l @ newline # rest) = l @ newline # take (n - 1 - Suc (length l)) rest"
    using assms(2) by (simp add: take_Cons')
  then have "take_line (take (n - 1) (l @ newline # rest)) = l @ [newline]"
    using assms(1) by (simp add: take_line_through_newline)
  then show ?thesis by (simp add: fgets_def)
qed

lemma fgets_full:
  assumes "newline \<notin> set (take (n - 1) p)" "n - 1 \<le> length p"
  shows "fgets n (s\<lparr>pending := p\<rparr>) =
           (Some (take (n - 1) p), s\<lparr>pending := drop (n - 1) p\<rparr>)"
  using assms by (simp add: fgets_def take_line_no_newline)

lemma fgets_None_feof:
  "fgets n s = (None, s') \<Longrightarrow> feof s' = (ending s = EndOfFile \<or> eof s)"
  by (auto simp: fgets_def feof_def Let_def split: if_splits ending.splits)

lemma fgets_Some_ending:
  "fgets n s = (Some b, s') \<Longrightarrow>
   (ending s' = EndOfFile \<or> eof s') = (ending s = EndOfFile \<or> eof s)"
  by (auto simp: fgets_def Let_def split: if_splits ending.splits)

lemma reads_empty: "reads n (s\<lparr>pending := []\<rparr>) = []"
  by (subst reads.simps) (cases "ending s"; auto simp: fgets_def Let_def)

lemma reads_line:
  assumes "newline \<notin> set l" "length l + 1 < n"
  shows "reads n (s\<lparr>pending := l @ newline # rest\<rparr>) =
           (l @ [newline]) # reads n (s\<lparr>pending := rest\<rparr>)"
  using assms by (subst reads.simps) (simp add: fgets_line)

lemma reads_full:
  assumes "2 \<le> n" "newline \<notin> set (take (n - 1) p)" "n - 1 \<le> length p"
  shows "reads n (s\<lparr>pending := p\<rparr>) =
           take (n - 1) p # reads n (s\<lparr>pending := drop (n - 1) p\<rparr>)"
  using assms by (subst reads.simps) (simp add: fgets_full)

lemma reads_lines:
  assumes "\<forall>l\<in>set ls. newline \<notin> set l \<and> length l + 1 < n"
  shows "reads n (stdin_of (concat (map (\<lambda>l. l @ [newline]) ls)) e) =
           map (\<lambda>l. l @ [newline]) ls"
  using assms
proof (induction ls)
  case Nil
  show ?case using reads_empty [of n "stdin_of [] e"] by simp
next
  case (Cons l ls)
  then have "newline \<notin> set l" "length l + 1 < n" by simp_all
  from reads_line [OF this, where s = "stdin_of [] e"
      and rest = "concat (map (\<lambda>l. l @ [newline]) ls)"]
  show ?case using Cons by simp
qed

subsection \<open>Cutting a text into pieces\<close>

lemma fixed_chunks_short:
  assumes "s \<noteq> []" "length s \<le> m"
  shows "fixed_chunks m s = [s]"
proof -
  have "0 < m" using assms by (cases s) auto
  then show ?thesis
    using assms by (subst fixed_chunks.simps, subst fixed_chunks.simps) auto
qed

lemma fixed_chunks_lengths: "c \<in> set (fixed_chunks m s) \<Longrightarrow> length c \<le> m"
proof (induction m s rule: fixed_chunks.induct)
  case (1 m s)
  then show ?case
    by (subst (asm) (2) fixed_chunks.simps) (auto split: if_splits)
qed

lemma concat_fixed_chunks: "0 < m \<Longrightarrow> concat (fixed_chunks m s) = s"
proof (induction m s rule: fixed_chunks.induct)
  case (1 m s)
  then show ?case
    by (subst fixed_chunks.simps) auto
qed

lemma fixed_chunks_two:
  assumes "0 < m" "m < length s"
  shows "2 \<le> length (fixed_chunks m s)"
proof -
  from assms have "s \<noteq> []" "drop m s \<noteq> []" by auto
  with assms(1) show ?thesis
    by (subst fixed_chunks.simps, subst fixed_chunks.simps) simp
qed

lemma reads_long_line:
  assumes "2 \<le> n" "newline \<notin> set l"
  shows "reads n (s\<lparr>pending := l @ newline # rest\<rparr>) =
           fixed_chunks (n - 1) (l @ [newline]) @ reads n (s\<lparr>pending := rest\<rparr>)"
  using assms(2)
proof (induction "length l" arbitrary: l rule: less_induct)
  case less
  show ?case
  proof (cases "length l + 1 < n")
    case True
    then have "fixed_chunks (n - 1) (l @ [newline]) = [l @ [newline]]"
      by (intro fixed_chunks_short) auto
    with True less.prems show ?thesis by (simp add: reads_line)
  next
    case False
    then have long: "n - 1 \<le> length l" by simp
    let ?p = "l @ newline # rest"
    have t: "take (n - 1) ?p = take (n - 1) l" using long by simp
    have d: "drop (n - 1) ?p = drop (n - 1) l @ newline # rest" using long by simp
    have nn: "newline \<notin> set (take (n - 1) ?p)"
      unfolding t using less.prems by (auto dest: in_set_takeD)
    have shorter: "length (drop (n - 1) l) < length l" using long assms(1) by simp
    have nd: "newline \<notin> set (drop (n - 1) l)" using less.prems by (auto dest: in_set_dropD)
    have IH: "reads n (s\<lparr>pending := drop (n - 1) l @ newline # rest\<rparr>) =
                fixed_chunks (n - 1) (drop (n - 1) l @ [newline]) @ reads n (s\<lparr>pending := rest\<rparr>)"
      using less.hyps [OF shorter nd] .
    have fc: "fixed_chunks (n - 1) (l @ [newline]) =
                take (n - 1) l # fixed_chunks (n - 1) (drop (n - 1) l @ [newline])"
      using long assms(1) by (subst fixed_chunks.simps) simp
    have "reads n (s\<lparr>pending := ?p\<rparr>) =
            take (n - 1) ?p # reads n (s\<lparr>pending := drop (n - 1) ?p\<rparr>)"
      using assms(1) nn long by (intro reads_full) auto
    then show ?thesis by (simp only: t d IH fc append_Cons)
  qed
qed

subsection \<open>The loop and the argument checks\<close>

lemma read_loop_result:
  assumes "2 \<le> BUFF_SIZE env"
  shows "read_loop env k s out =
           Some (if ending s = EndOfFile \<or> eof s
                 then Exit (out @ concat (map (per_record env k) (reads (BUFF_SIZE env) s)) @
                            (if k \<noteq> 0 then [KmlPtsFooter] else [])) 0
                 else Exit (out @ concat (map (per_record env k) (reads (BUFF_SIZE env) s)) @
                            [Error ''reading H3 index from stdin'']) 1)"
  using assms
proof (induction "BUFF_SIZE env" s arbitrary: out rule: reads.induct)
  case (1 s)
  obtain r s' where f: "fgets (BUFF_SIZE env) s = (r, s')"
    by (cases "fgets (BUFF_SIZE env) s")
  have n2: "\<not> BUFF_SIZE env < 2" using 1(2) by simp
  show ?case
  proof (cases r)
    case None
    with f n2 show ?thesis
      by (subst read_loop.simps, subst reads.simps, subst (2) reads.simps)
         (simp add: error_def fgets_None_feof)
  next
    case (Some buff)
    note IH = 1(1) [OF n2 f [symmetric] Some 1(2)]
    have e: "(ending s' = EndOfFile \<or> eof s') = (ending s = EndOfFile \<or> eof s)"
      using f [unfolded Some] by (rule fgets_Some_ending)
    show ?thesis
      using f Some n2
      by (subst read_loop.simps, subst reads.simps, subst (2) reads.simps)
         (simp add: IH e per_record_def)
  qed
qed

lemma record_calls_unframed:
  assumes "x \<in> set (concat (map (per_record env k) bs))"
  shows "\<not> is_header x \<and> x \<noteq> KmlPtsFooter"
  using assms by (auto simp: per_record_def doCell_def Let_def split: if_splits)

lemma sscanf_d_result:
  assumes "sscanf_d s 0 = Some (ret, k)"
  shows "ret = 1 \<or> (ret = EOF \<or> ret = 0) \<and> k = 0"
  using assms by (auto simp: sscanf_d_def split: scanned.splits if_splits)

lemma main_cases:
  fixes env :: "('h, 'b) env"
  obtains
    (usage) "5 < length argv"
      "main env argv s = Some (Exit [FprintfStderr (''usage: '' @ argv ! 0 @
          '' [outputMode kmlName kmlDesc]'' @ [newline])] 1)"
  | (undefined) "main env argv s = Some Undefined"
  | (rejected) msg where "main env argv s = Some (Exit [Error msg] 1)"
      "\<not> (1 < length argv \<and> length argv \<le> 5 \<and> sscanf_d (argv ! 1) 0 = Some (1, 1))"
  | (plain) hdr where "main env argv s = read_loop env 0 s hdr"
      "hdr = [] \<or> (\<exists>name desc. hdr = [KmlPtsHeader name desc])"
      "\<not> (1 < length argv \<and> length argv \<le> 5 \<and> sscanf_d (argv ! 1) 0 = Some (1, 1))"
  | (kml) name desc where "main env argv s = read_loop env 1 s [KmlPtsHeader name desc]"
      "1 < length argv \<and> length argv \<le> 5 \<and> sscanf_d (argv ! 1) 0 = Some (1, 1)"
proof (cases "5 < length argv")
  case True
  then show ?thesis by (intro usage) (simp_all add: main_def)
next
  case few: False
  show ?thesis
  proof (cases "1 < length argv")
    case False
    with few show ?thesis by (intro plain [of "[]"]) (simp_all add: main_def)
  next
    case True
    show ?thesis
    proof (cases "sscanf_d (argv ! 1) 0")
      case None
      with few True show ?thesis by (intro undefined) (simp add: main_def)
    next
      case (Some rk)
      obtain ret k where rk: "rk = (ret, k)" by (cases rk)
      note sc = Some [unfolded rk]
      from sscanf_d_result [OF sc] consider
        "ret = 0" | "ret \<noteq> 0" "k \<noteq> 0" "k \<noteq> 1" | "ret \<noteq> 0" "k = 0" | "ret = 1" "k = 1"
        by (auto simp: EOF_def)
      then show ?thesis
      proof cases
        case 1
        with few True sc show ?thesis
          by (intro rejected [of "''outputMode must be an integer''"])
             (simp_all add: main_def error_def)
      next
        case 2
        with few True sc show ?thesis
          by (intro rejected [of "''outputMode must be 0 or 1''"])
             (simp_all add: main_def error_def)
      next
        case 3
        with few True sc show ?thesis
          by (intro plain [of "[KmlPtsHeader
                 (if 2 < length argv then argv ! 2 else defaultKmlName)
                 (if 3 < length argv then argv ! 3 else defaultKmlDesc)]"])
             (simp_all add: main_def)
      next
        case 4
        with few True sc show ?thesis
          by (intro kml [of
                 "if 2 < length argv then argv ! 2 else defaultKmlName"
                 "if 3 < length argv then argv ! 3 else defaultKmlDesc"])
             (simp_all add: main_def)
      qed
    qed
  qed
qed

subsection \<open>Runs on concrete inputs\<close>

lemma demo_env_simps [simp]:
  "BUFF_SIZE (demo_env n) = n"
  "stringToH3 (demo_env n) = takeWhile (\<lambda>c. c \<in> set ''0123456789abcdef'')"
  "h3ToGeoBoundary (demo_env n) h = ''boundary of '' @ h"
  "h3ToString (demo_env n) h m = h"
  by (simp_all add: demo_env_def)

lemma scan_examples:
  "sscanf_d ''0'' 0 = Some (1, 0)"
  "sscanf_d ''1'' 0 = Some (1, 1)"
  "sscanf_d [] 0 = Some (EOF, 0)"
  by code_simp+

lemma reads_examples:
  "reads 256 (stdin_of [] EndOfFile) = []"
  "reads 256 (stdin_of (''8928308280fffff'' @ [newline]) EndOfFile) =
     [''8928308280fffff'' @ [newline]]"
  "reads 4 (stdin_of (''89283'' @ [newline]) EndOfFile) = [''892'', ''83'' @ [newline]]"
  "reads 4 (stdin_of (''89'' @ [newline] @ ''8a'') ReadError) = [''89'' @ [newline]]"
  by code_simp+

lemmas run_simps =
  main_def read_loop_result per_record_def doCell_def c_str_def
  defaultKmlName_def defaultKmlDesc_def EOF_def scan_examples reads_examples [simplified]

section \<open>The claims\<close>

text \<open>
  Throughout, \<open>2 \<le> BUFF_SIZE env\<close> says that the input buffer holds at least one byte
  besides the terminating NUL: with a smaller buffer \<^verbatim>\<open>fgets\<close> never consumes
  input and the loop of \<^verbatim>\<open>main\<close> does not end.
\<close>

subsection \<open>C1: no KML header in plain-text mode\<close>

text \<open>
  Claim C1 says that a run in plain-text mode, whether outputMode 0 is the default or is
  given on the command line, emits no KML header, and that header and footer are written
  in KML mode only. The code calls \<^verbatim>\<open>kmlPtsHeader\<close> inside
  \<^verbatim>\<open>if (argc > 1)\<close>, whatever the mode, while it guards the footer with
  \<^verbatim>\<open>if (isKmlOut)\<close>. The run below, with outputMode 0 given on the command line
  and one cell on standard input, calls \<^verbatim>\<open>kmlPtsHeader\<close>, then writes the
  record as plain text, and writes no footer.
\<close>

theorem explicit_plain_mode_writes_header:
  "main (demo_env 256) [''h3ToGeoBoundary'', ''0'']
     (stdin_of (''8928308280fffff'' @ [newline]) EndOfFile) =
   Some (Exit [KmlPtsHeader ''geo from H3'' ''from h3ToGeo'',
               StringToH3 (''8928308280fffff'' @ [newline]),
               Printf (''8928308280fffff'' @ [newline]),
               GeoBoundaryPrintln ''boundary of 8928308280fffff''] 0)"
  by (simp add: run_simps)

subsection \<open>C2: too many arguments\<close>

text \<open>
  Claim C2 says that an invocation with more than 4 arguments, the program name included,
  prints the usage message and exits with a non-zero status before any input is read. The
  usage text \<^verbatim>\<open>[outputMode kmlName kmlDesc]\<close> allows 4, but the code tests
  \<^verbatim>\<open>argc > 5\<close>: with 5 arguments the run below prints no usage message, ignores
  the fifth argument, processes standard input and exits with status 0.
\<close>

theorem five_arguments_are_accepted:
  "main (demo_env 256) [''h3ToGeoBoundary'', ''1'', ''name'', ''desc'', ''extra'']
     (stdin_of (''8928308280fffff'' @ [newline]) EndOfFile) =
   Some (Exit [KmlPtsHeader ''name'' ''desc'',
               StringToH3 (''8928308280fffff'' @ [newline]),
               OutputBoundaryKML ''boundary of 8928308280fffff'' ''8928308280fffff'',
               KmlPtsFooter] 0)"
  by (simp add: run_simps)

subsection \<open>C3: an outputMode that is not 0 or 1\<close>

text \<open>
  Claim C3 says that a first argument that does not parse as exactly the integer 0 or 1
  ends the run with a non-zero status, no record being read. The code tests
  \<^verbatim>\<open>!sscanf(argv[1], "%d", &isKmlOut)\<close>, which catches the return value 0 only.
  For the empty argument \<^verbatim>\<open>sscanf\<close> returns \<^verbatim>\<open>EOF\<close>, the test lets it
  pass, \<^verbatim>\<open>isKmlOut\<close> keeps its initial 0, and the run below reads and processes
  standard input and exits with status 0.
\<close>

theorem empty_output_mode_is_accepted:
  "sscanf_d [] 0 = Some (EOF, 0) \<and>
   main (demo_env 256) [''h3ToGeoBoundary'', []]
     (stdin_of (''8928308280fffff'' @ [newline]) EndOfFile) =
   Some (Exit [KmlPtsHeader ''geo from H3'' ''from h3ToGeo'',
               StringToH3 (''8928308280fffff'' @ [newline]),
               Printf (''8928308280fffff'' @ [newline]),
               GeoBoundaryPrintln ''boundary of 8928308280fffff''] 0)"
  by (simp add: run_simps)

subsection \<open>C4: the name and the description of the KML header\<close>

text \<open>
  Claim C4: in a KML-mode run, a kmlName or kmlDesc that is omitted from the command line
  is replaced by its fixed default, "geo from H3" for the name and "from h3ToGeo" for the
  description, and a string that is supplied is used verbatim. The header is the first
  call of the run and the only header.
\<close>

theorem kml_header_strings:
  fixes env :: "('h, 'b) env"
  assumes "2 \<le> BUFF_SIZE env"
    and "1 < length argv" and "length argv \<le> 5"
    and "sscanf_d (argv ! 1) 0 = Some (1, 1)"
  shows "\<exists>rest st. main env argv (stdin_of p e) =
            Some (Exit (KmlPtsHeader (if 2 < length argv then argv ! 2 else ''geo from H3'')
                                     (if 3 < length argv then argv ! 3 else ''from h3ToGeo'')
                        # rest) st) \<and>
            filter is_header rest = []"
proof -
  let ?hdr = "KmlPtsHeader (if 2 < length argv then argv ! 2 else ''geo from H3'')
                           (if 3 < length argv then argv ! 3 else ''from h3ToGeo'')"
  let ?recs = "concat (map (per_record env 1) (reads (BUFF_SIZE env) (stdin_of p e)))"
  have m: "main env argv (stdin_of p e) = read_loop env 1 (stdin_of p e) [?hdr]"
    using assms(2-4) by (simp add: main_def defaultKmlName_def defaultKmlDesc_def)
  have nohdr: "filter is_header ?recs = []"
    using record_calls_unframed [of _ env 1] by (auto simp: filter_empty_conv)
  show ?thesis
  proof (cases e)
    case EndOfFile
    with m nohdr read_loop_result [OF assms(1), of 1 "stdin_of p e" "[?hdr]"]
    show ?thesis by simp
  next
    case ReadError
    with m nohdr read_loop_result [OF assms(1), of 1 "stdin_of p e" "[?hdr]"]
    show ?thesis by simp
  qed
qed

theorem kml_header_strings_witness:
  "2 \<le> BUFF_SIZE (demo_env 256) \<and>
   sscanf_d ([''h3ToGeoBoundary'', ''1'', ''my cells''] ! 1) 0 = Some (1, 1) \<and>
   (\<exists>rest st. main (demo_env 256) [''h3ToGeoBoundary'', ''1'', ''my cells'']
                 (stdin_of (''8928308280fffff'' @ [newline]) EndOfFile) =
               Some (Exit (KmlPtsHeader ''my cells'' ''from h3ToGeo'' # rest) st) \<and>
               filter is_header rest = [])"
proof -
  have b: "2 \<le> BUFF_SIZE (demo_env 256)" by simp
  have s: "sscanf_d ([''h3ToGeoBoundary'', ''1'', ''my cells''] ! 1) 0 = Some (1, 1)"
    by (simp add: scan_examples)
  from kml_header_strings [OF b _ _ s, of "''8928308280fffff'' @ [newline]" EndOfFile] b s
  show ?thesis by simp
qed

subsection \<open>C5: the text handed to the decoder\<close>

text \<open>
  Claim C5 says that the raw input line is handed to \<^verbatim>\<open>stringToH3\<close> with its
  trailing newline removed. The code passes the buffer as \<^verbatim>\<open>fgets\<close> filled it,
  and \<^verbatim>\<open>fgets\<close> keeps the newline: for the input line \<^verbatim>\<open>8928308280fffff\<close>
  the decoder receives the line with the newline at its end, not the bare line.
\<close>

theorem newline_removed_counterexample:
  "decoded_texts (calls_of (main (demo_env 256) [''h3ToGeoBoundary'']
      (stdin_of (''8928308280fffff'' @ [newline]) EndOfFile))) =
     [''8928308280fffff'' @ [newline]] \<and>
   decoded_texts (calls_of (main (demo_env 256) [''h3ToGeoBoundary'']
      (stdin_of (''8928308280fffff'' @ [newline]) EndOfFile))) \<noteq>
     [''8928308280fffff'']"
  by (simp add: run_simps)

text \<open>
  Claim C5 as amended: for every record, the text handed to \<^verbatim>\<open>stringToH3\<close> is
  the raw input line with its trailing newline kept. Stated for the loop of
  \<^verbatim>\<open>main\<close> in either mode, after any calls already made, on an input of lines
  that fit the buffer together with their newline and contain no NUL byte: every line is
  decoded, newline included, and the decoded cell goes to \<^verbatim>\<open>doCell\<close>; then the
  run ends normally.
\<close>

theorem lines_are_decoded_with_their_newline:
  fixes env :: "('h, 'b) env"
  assumes "2 \<le> BUFF_SIZE env"
    and "\<forall>l\<in>set ls. newline \<notin> set l \<and> NUL \<notin> set l \<and> length l + 1 < BUFF_SIZE env"
  shows "read_loop env k (stdin_of (concat (map (\<lambda>l. l @ [newline]) ls)) EndOfFile) out =
           Some (Exit (out @
                       concat (map (\<lambda>l. StringToH3 (l @ [newline]) #
                                     doCell env (stringToH3 env (l @ [newline])) k) ls) @
                       (if k \<noteq> 0 then [KmlPtsFooter] else [])) 0)"
proof -
  have r: "reads (BUFF_SIZE env) (stdin_of (concat (map (\<lambda>l. l @ [newline]) ls)) EndOfFile) =
             map (\<lambda>l. l @ [newline]) ls"
    using assms(2) by (intro reads_lines) simp
  have c: "c_str (l @ [newline]) = l @ [newline]" if "l \<in> set ls" for l
    using that assms(2) by (auto simp: c_str_def)
  have "concat (map (per_record env k)
            (reads (BUFF_SIZE env) (stdin_of (concat (map (\<lambda>l. l @ [newline]) ls)) EndOfFile))) =
        concat (map (\<lambda>l. StringToH3 (l @ [newline]) #
                      doCell env (stringToH3 env (l @ [newline])) k) ls)"
    unfolding r map_map
    by (rule arg_cong [where f = concat], rule map_cong) (simp_all add: per_record_def c)
  with read_loop_result [OF assms(1), of k
      "stdin_of (concat (map (\<lambda>l. l @ [newline]) ls)) EndOfFile" out]
  show ?thesis by simp
qed

theorem lines_are_decoded_with_their_newline_witness:
  "2 \<le> BUFF_SIZE (demo_env 256) \<and>
   main (demo_env 256) [''h3ToGeoBoundary'']
     (stdin_of (''8928308280fffff'' @ [newline] @ ''8a'' @ [newline]) EndOfFile) =
   Some (Exit [StringToH3 (''8928308280fffff'' @ [newline]),
               Printf (''8928308280fffff'' @ [newline]),
               GeoBoundaryPrintln ''boundary of 8928308280fffff'',
               StringToH3 (''8a'' @ [newline]),
               Printf (''8a'' @ [newline]),
               GeoBoundaryPrintln ''boundary of 8a''] 0)"
proof -
  have b: "2 \<le> BUFF_SIZE (demo_env 256)" by simp
  have l: "\<forall>l\<in>set [''8928308280fffff'', ''8a''].
             newline \<notin> set l \<and> NUL \<notin> set l \<and> length l + 1 < BUFF_SIZE (demo_env 256)"
    by simp
  from lines_are_decoded_with_their_newline [OF b l, of 0 "[]"] b
  show ?thesis by (simp add: main_def doCell_def)
qed

subsection \<open>C6: empty input\<close>

text \<open>
  Claim C6 says that on an empty input a plain-text run produces no output and a KML run
  produces the header immediately followed by the footer. The plain-text half fails when
  outputMode 0 is given on the command line, by the defect of C1: the run below calls
  \<^verbatim>\<open>kmlPtsHeader\<close> and nothing else, so its output is a KML header without a
  footer.
\<close>

theorem empty_input_explicit_plain_mode:
  "main (demo_env 256) [''h3ToGeoBoundary'', ''0''] (stdin_of [] EndOfFile) =
   Some (Exit [KmlPtsHeader ''geo from H3'' ''from h3ToGeo''] 0)"
  by (simp add: run_simps)

subsection \<open>C7: header first, footer last and only at the end of the input\<close>

text \<open>
  Claim C7: in every run, every header call comes before every record output; the footer
  is called exactly in the KML-mode runs whose input ends with the end of the file (never
  after a read error, and never when the arguments are rejected), and then once, as the
  last call of the run, after the last record. Every run ends, given a buffer of two bytes
  or more; nothing is said of a run that C leaves undefined (an outputMode beyond the
  range of \<^verbatim>\<open>int\<close>).
\<close>

theorem header_first_footer_last:
  fixes env :: "('h, 'b) env"
  assumes "2 \<le> BUFF_SIZE env"
  shows "\<exists>r. main env argv (stdin_of p e) = Some r \<and>
           (\<forall>calls st. r = Exit calls st \<longrightarrow>
              (\<exists>before after. calls = before @ after \<and>
                 (\<forall>x\<in>set before. \<not> is_record_output x) \<and>
                 (\<forall>x\<in>set after. \<not> is_header x)) \<and>
              (KmlPtsFooter \<in> set calls \<longleftrightarrow>
                 (1 < length argv \<and> length argv \<le> 5 \<and>
                  sscanf_d (argv ! 1) 0 = Some (1, 1)) \<and> e = EndOfFile) \<and>
              (KmlPtsFooter \<in> set calls \<longrightarrow>
                 (\<exists>body. calls = body @ [KmlPtsFooter] \<and> KmlPtsFooter \<notin> set body)))"
proof -
  let ?s = "stdin_of p e"
  let ?kml = "1 < length argv \<and> length argv \<le> 5 \<and> sscanf_d (argv ! 1) 0 = Some (1, 1)"
  have unframed: "\<not> is_header x \<and> x \<noteq> KmlPtsFooter"
    if "x \<in> set (concat (map (per_record env k) (reads (BUFF_SIZE env) ?s)))" for x k
    using that by (rule record_calls_unframed)
  note loop = read_loop_result [OF assms, where s = ?s]
  show ?thesis
  proof (cases rule: main_cases [of argv env ?s])
    case usage
    then show ?thesis by (auto intro: exI [of _ "[]"])
  next
    case undefined
    then show ?thesis by simp
  next
    case (rejected msg)
    then show ?thesis by (auto intro: exI [of _ "[]"])
  next
    case (plain hdr)
    let ?recs = "concat (map (per_record env 0) (reads (BUFF_SIZE env) ?s))"
    let ?tl = "if e = EndOfFile then [] else [Error ''reading H3 index from stdin'']"
    have m: "main env argv ?s = Some (Exit (hdr @ ?recs @ ?tl) (if e = EndOfFile then 0 else 1))"
      using plain(1) loop [of 0 hdr] by simp
    have split: "(\<forall>x\<in>set hdr. \<not> is_record_output x) \<and> (\<forall>x\<in>set (?recs @ ?tl). \<not> is_header x)"
      using plain(2) unframed [of _ 0] by auto
    have nofoot: "KmlPtsFooter \<notin> set (hdr @ ?recs @ ?tl)"
      using plain(2) unframed [of _ 0] by auto
    show ?thesis
      using m split nofoot plain(3) by (intro exI [of _ "Exit (hdr @ ?recs @ ?tl) (if e = EndOfFile then 0 else 1)"]) blast
  next
    case (kml name desc)
    let ?hdr = "[KmlPtsHeader name desc]"
    let ?recs = "concat (map (per_record env 1) (reads (BUFF_SIZE env) ?s))"
    show ?thesis
    proof (cases e)
      case EndOfFile
      have m: "main env argv ?s = Some (Exit ((?hdr @ ?recs) @ [KmlPtsFooter]) 0)"
        using kml(1) loop [of 1 ?hdr] EndOfFile by simp
      have split: "(\<forall>x\<in>set ?hdr. \<not> is_record_output x) \<and>
                   (\<forall>x\<in>set (?recs @ [KmlPtsFooter]). \<not> is_header x)"
        using unframed [of _ 1] by auto
      have body: "KmlPtsFooter \<notin> set (?hdr @ ?recs)"
        using unframed [of _ 1] by auto
      have shape: "\<exists>before after. (?hdr @ ?recs) @ [KmlPtsFooter] = before @ after \<and>
                 (\<forall>x\<in>set before. \<not> is_record_output x) \<and> (\<forall>x\<in>set after. \<not> is_header x)"
        using split by (intro exI [of _ ?hdr] exI [of _ "?recs @ [KmlPtsFooter]"]) simp
      show ?thesis
        using m shape body kml(2) EndOfFile
        by (intro exI [of _ "Exit ((?hdr @ ?recs) @ [KmlPtsFooter]) 0"]) auto
    next
      case ReadError
      let ?tl = "[Error ''reading H3 index from stdin'']"
      have m: "main env argv ?s = Some (Exit (?hdr @ ?recs @ ?tl) 1)"
        using kml(1) loop [of 1 ?hdr] ReadError by simp
      have split: "(\<forall>x\<in>set ?hdr. \<not> is_record_output x) \<and> (\<forall>x\<in>set (?recs @ ?tl). \<not> is_header x)"
        using unframed [of _ 1] by auto
      have nofoot: "KmlPtsFooter \<notin> set (?hdr @ ?recs @ ?tl)"
        using unframed [of _ 1] by auto
      show ?thesis
        using m split nofoot ReadError
        by (intro exI [of _ "Exit (?hdr @ ?recs @ ?tl) 1"]) blast
    qed
  qed
qed

theorem header_first_footer_last_witness:
  "2 \<le> BUFF_SIZE (demo_env 256) \<and>
   (\<exists>body. main (demo_env 256) [''h3ToGeoBoundary'', ''1'']
              (stdin_of (''8928308280fffff'' @ [newline]) EndOfFile) =
            Some (Exit (body @ [KmlPtsFooter]) 0) \<and>
          KmlPtsFooter \<notin> set body)"
proof -
  have b: "2 \<le> BUFF_SIZE (demo_env 256)" by simp
  have run: "main (demo_env 256) [''h3ToGeoBoundary'', ''1'']
               (stdin_of (''8928308280fffff'' @ [newline]) EndOfFile) =
             Some (Exit [KmlPtsHeader ''geo from H3'' ''from h3ToGeo'',
                         StringToH3 (''8928308280fffff'' @ [newline]),
                         OutputBoundaryKML ''boundary of 8928308280fffff'' ''8928308280fffff'',
                         KmlPtsFooter] 0)"
    by (simp add: run_simps)
  from header_first_footer_last [OF b, of "[''h3ToGeoBoundary'', ''1'']"
      "''8928308280fffff'' @ [newline]" EndOfFile]
  have "\<exists>body. [KmlPtsHeader ''geo from H3'' ''from h3ToGeo'',
                  StringToH3 (''8928308280fffff'' @ [newline]),
                  OutputBoundaryKML ''boundary of 8928308280fffff'' ''8928308280fffff'',
                  KmlPtsFooter] = body @ [KmlPtsFooter] \<and> KmlPtsFooter \<notin> set body"
    unfolding run by simp
  with b run show ?thesis by simp
qed

subsection \<open>C8: a read error is fatal\<close>

text \<open>
  Claim C8: when reading fails for a reason other than the end of the file, the program
  reports the failure to the error stream and halts at once with a non-zero status. No
  further record is processed, what was written stays as it is, and in KML mode no footer
  is written. Stated for the loop of \<^verbatim>\<open>main\<close> in either mode, after any calls
  already made: the calls of the run are those made before, then the calls for the
  buffers read before the failure, then the call of \<^verbatim>\<open>error\<close>, which is the
  last one.
\<close>

theorem read_error_is_fatal:
  fixes env :: "('h, 'b) env"
  assumes "2 \<le> BUFF_SIZE env"
  shows "read_loop env k (stdin_of p ReadError) out =
           Some (Exit (out @
                       concat (map (per_record env k)
                                 (reads (BUFF_SIZE env) (stdin_of p ReadError))) @
                       [Error ''reading H3 index from stdin'']) 1) \<and>
         KmlPtsFooter \<notin>
           set (concat (map (per_record env k) (reads (BUFF_SIZE env) (stdin_of p ReadError))))"
proof -
  let ?written = "concat (map (per_record env k) (reads (BUFF_SIZE env) (stdin_of p ReadError)))"
  have "KmlPtsFooter \<notin> set ?written"
    using record_calls_unframed [of KmlPtsFooter env k] by blast
  with read_loop_result [OF assms, of k "stdin_of p ReadError" out]
  show ?thesis by simp
qed

theorem read_error_is_fatal_witness:
  "2 \<le> BUFF_SIZE (demo_env 4) \<and>
   main (demo_env 4) [''h3ToGeoBoundary'', ''1'']
     (stdin_of (''89'' @ [newline] @ ''8a'') ReadError) =
   Some (Exit [KmlPtsHeader ''geo from H3'' ''from h3ToGeo'',
               StringToH3 (''89'' @ [newline]),
               OutputBoundaryKML ''boundary of 89'' ''89'',
               Error ''reading H3 index from stdin''] 1)"
proof -
  have b: "2 \<le> BUFF_SIZE (demo_env 4)" by simp
  from read_error_is_fatal [OF b, of 1 "''89'' @ [newline] @ ''8a''"
      "[KmlPtsHeader ''geo from H3'' ''from h3ToGeo'']"] b
  show ?thesis
    by (simp add: main_def scan_examples defaultKmlName_def defaultKmlDesc_def
          per_record_def doCell_def c_str_def reads_examples [simplified])
qed

subsection \<open>C9: every line read is processed\<close>

text \<open>
  Claim C9: every buffer that \<^verbatim>\<open>fgets\<close> returns gives rise to exactly one
  record's output. Its text is decoded and the result, whatever the text was, is handed to
  the encoder of the run's mode: one call of \<^verbatim>\<open>outputBoundaryKML\<close> in KML mode,
  the label line and the boundary in plain-text mode. No buffer is skipped, and nothing but
  the end of the input ends the loop: the run ends normally at the end of the file and
  with the read error otherwise. Stated for the loop of \<^verbatim>\<open>main\<close> in either mode,
  after any calls already made.
\<close>

theorem every_line_read_is_processed:
  fixes env :: "('h, 'b) env"
  assumes "2 \<le> BUFF_SIZE env"
  shows "read_loop env k (stdin_of p e) out =
           Some (Exit (out @
                       concat (map (\<lambda>buff. StringToH3 (c_str buff) #
                                       doCell env (stringToH3 env (c_str buff)) k)
                                 (reads (BUFF_SIZE env) (stdin_of p e))) @
                       (case e of
                          EndOfFile \<Rightarrow> if k \<noteq> 0 then [KmlPtsFooter] else []
                        | ReadError \<Rightarrow> [Error ''reading H3 index from stdin'']))
                      (case e of EndOfFile \<Rightarrow> 0 | ReadError \<Rightarrow> 1)) \<and>
         (\<forall>h. doCell env h k =
                (if k \<noteq> 0
                 then [OutputBoundaryKML (h3ToGeoBoundary env h) (h3ToString env h (BUFF_SIZE env))]
                 else [Printf (h3ToString env h (BUFF_SIZE env) @ [newline]),
                       GeoBoundaryPrintln (h3ToGeoBoundary env h)]))"
proof -
  have "per_record env k =
          (\<lambda>buff. StringToH3 (c_str buff) # doCell env (stringToH3 env (c_str buff)) k)"
    by (simp add: per_record_def fun_eq_iff)
  with read_loop_result [OF assms, of k "stdin_of p e" out]
  show ?thesis by (cases e) (simp_all add: doCell_def)
qed

theorem every_line_read_is_processed_witness:
  "2 \<le> BUFF_SIZE (demo_env 256) \<and>
   main (demo_env 256) [''h3ToGeoBoundary'', ''1'']
     (stdin_of (''8928308280fffff'' @ [newline]) EndOfFile) =
   Some (Exit [KmlPtsHeader ''geo from H3'' ''from h3ToGeo'',
               StringToH3 (''8928308280fffff'' @ [newline]),
               OutputBoundaryKML ''boundary of 8928308280fffff'' ''8928308280fffff'',
               KmlPtsFooter] 0)"
proof -
  have b: "2 \<le> BUFF_SIZE (demo_env 256)" by simp
  from every_line_read_is_processed [OF b, of 1 "''8928308280fffff'' @ [newline]" EndOfFile
      "[KmlPtsHeader ''geo from H3'' ''from h3ToGeo'']"] b
  show ?thesis
    by (simp add: main_def scan_examples defaultKmlName_def defaultKmlDesc_def
          c_str_def reads_examples [simplified])
qed

subsection \<open>C10: a line longer than the buffer\<close>

text \<open>
  Claim C10: a line that, with its newline, does not fit the \<open>BUFF_SIZE - 1\<close> bytes one
  call of \<^verbatim>\<open>fgets\<close> can return is neither refused nor cut down to one record.
  It is read in successive pieces of \<open>BUFF_SIZE - 1\<close> bytes, the last one shorter and
  ending in the newline; there are at least two pieces, together they are the whole line,
  and each one is decoded and written as a record of its own. The calls of the run are
  those made before, then one record per piece, then the records of the rest of the input,
  then the footer or the report of a read error, as the mode and the end of the input
  have it. Stated for the loop of \<^verbatim>\<open>main\<close> in either mode, after any calls
  already made.
\<close>

theorem long_line_is_read_in_pieces:
  fixes env :: "('h, 'b) env"
  assumes "2 \<le> BUFF_SIZE env"
    and "newline \<notin> set l"
    and "BUFF_SIZE env - 1 \<le> length l"
  shows "read_loop env k (stdin_of (l @ newline # rest) e) out =
           Some (Exit (out @
                       concat (map (\<lambda>piece. StringToH3 (c_str piece) #
                                        doCell env (stringToH3 env (c_str piece)) k)
                                 (fixed_chunks (BUFF_SIZE env - 1) (l @ [newline]))) @
                       concat (map (\<lambda>buff. StringToH3 (c_str buff) #
                                       doCell env (stringToH3 env (c_str buff)) k)
                                 (reads (BUFF_SIZE env) (stdin_of rest e))) @
                       (case e of
                          EndOfFile \<Rightarrow> if k \<noteq> 0 then [KmlPtsFooter] else []
                        | ReadError \<Rightarrow> [Error ''reading H3 index from stdin'']))
                      (case e of EndOfFile \<Rightarrow> 0 | ReadError \<Rightarrow> 1)) \<and>
         2 \<le> length (fixed_chunks (BUFF_SIZE env - 1) (l @ [newline])) \<and>
         concat (fixed_chunks (BUFF_SIZE env - 1) (l @ [newline])) = l @ [newline] \<and>
         (\<forall>c\<in>set (fixed_chunks (BUFF_SIZE env - 1) (l @ [newline])).
            length c \<le> BUFF_SIZE env - 1)"
proof -
  let ?n = "BUFF_SIZE env"
  let ?pieces = "fixed_chunks (?n - 1) (l @ [newline])"
  let ?rec = "\<lambda>buff. StringToH3 (c_str buff) # doCell env (stringToH3 env (c_str buff)) k"
  have r: "reads ?n (stdin_of (l @ newline # rest) e) = ?pieces @ reads ?n (stdin_of rest e)"
    using reads_long_line [OF assms(1,2), where s = "stdin_of [] e" and rest = rest] by simp
  have p: "per_record env k = ?rec"
    by (simp add: per_record_def fun_eq_iff)
  have "read_loop env k (stdin_of (l @ newline # rest) e) out =
          Some (Exit (out @ concat (map ?rec ?pieces) @
                      concat (map ?rec (reads ?n (stdin_of rest e))) @
                      (case e of
                         EndOfFile \<Rightarrow> if k \<noteq> 0 then [KmlPtsFooter] else []
                       | ReadError \<Rightarrow> [Error ''reading H3 index from stdin'']))
                     (case e of EndOfFile \<Rightarrow> 0 | ReadError \<Rightarrow> 1))"
    unfolding read_loop_result [OF assms(1)] r p by (cases e) simp_all
  moreover have "2 \<le> length ?pieces"
    using assms(1,3) by (intro fixed_chunks_two) simp_all
  moreover have "concat ?pieces = l @ [newline]"
    using assms(1) by (intro concat_fixed_chunks) simp
  moreover have "\<forall>c\<in>set ?pieces. length c \<le> ?n - 1"
    by (simp add: fixed_chunks_lengths)
  ultimately show ?thesis by blast
qed

theorem long_line_is_read_in_pieces_witness:
  "2 \<le> BUFF_SIZE (demo_env 4) \<and>
   newline \<notin> set ''89283'' \<and>
   BUFF_SIZE (demo_env 4) - 1 \<le> length ''89283'' \<and>
   fixed_chunks (BUFF_SIZE (demo_env 4) - 1) (''89283'' @ [newline]) =
     [''892'', ''83'' @ [newline]] \<and>
   main (demo_env 4) [''h3ToGeoBoundary'', ''1'']
     (stdin_of (''89283'' @ [newline]) EndOfFile) =
   Some (Exit [KmlPtsHeader ''geo from H3'' ''from h3ToGeo'',
               StringToH3 ''892'', OutputBoundaryKML ''boundary of 892'' ''892'',
               StringToH3 (''83'' @ [newline]), OutputBoundaryKML ''boundary of 83'' ''83'',
               KmlPtsFooter] 0) \<and>
   main (demo_env 4) [''h3ToGeoBoundary''] (stdin_of (''89283'' @ [newline]) EndOfFile) =
   Some (Exit [StringToH3 ''892'', Printf (''892'' @ [newline]),
               GeoBoundaryPrintln ''boundary of 892'',
               StringToH3 (''83'' @ [newline]), Printf (''83'' @ [newline]),
               GeoBoundaryPrintln ''boundary of 83''] 0)"
proof -
  have b: "2 \<le> BUFF_SIZE (demo_env 4)" by simp
  have n: "newline \<notin> set ''89283''" by simp
  have g: "BUFF_SIZE (demo_env 4) - 1 \<le> length ''89283''" by simp
  have f: "fixed_chunks (BUFF_SIZE (demo_env 4) - 1) (''89283'' @ [newline]) =
             [''892'', ''83'' @ [newline]]"
    by (simp add: fixed_chunks.simps)
  have e: "reads 4 (stdin_of [] EndOfFile) = []"
    using reads_empty [of 4 "stdin_of [] EndOfFile"] by simp
  note kml = long_line_is_read_in_pieces [OF b n g, of 1 "[]" EndOfFile
      "[KmlPtsHeader ''geo from H3'' ''from h3ToGeo'']"]
  note plain = long_line_is_read_in_pieces [OF b n g, of 0 "[]" EndOfFile "[]"]
  from kml plain b n g f
  show ?thesis
    by (simp add: main_def scan_examples defaultKmlName_def defaultKmlDesc_def
          e doCell_def c_str_def)
qed

end
